theory Spec2Isabelle
  imports Complex_Main "HOL-Library.Word" "HOL-Library.Sublist"
begin

section \<open>JavaScript strings\<close>

text \<open>
  A JavaScript string is a sequence of 16-bit code units. The literals of the source are
  ASCII; \<open>js\<close> turns an ASCII literal into its code units.
\<close>

type_synonym code_unit = "16 word"
type_synonym js_string = "code_unit list"

definition js :: "string \<Rightarrow> js_string" where
  "js s = map (\<lambda>c. of_char c) s"

definition nl :: code_unit where
  "nl = 0x0A"

text \<open>
  \<open>String.prototype.trim\<close> removes the code units of the ECMAScript productions
  WhiteSpace and LineTerminator from both ends.
\<close>

definition isWhiteSpace :: "code_unit \<Rightarrow> bool" where
  "isWhiteSpace c \<longleftrightarrow>
     c = 0x09 \<or> c = 0x0A \<or> c = 0x0B \<or> c = 0x0C \<or> c = 0x0D \<or> c = 0x20 \<or> c = 0xA0 \<or>
     c = 0x1680 \<or> (0x2000 \<le> c \<and> c \<le> 0x200A) \<or> c = 0x2028 \<or> c = 0x2029 \<or>
     c = 0x202F \<or> c = 0x205F \<or> c = 0x3000 \<or> c = 0xFEFF"

definition trim :: "js_string \<Rightarrow> js_string" where
  "trim s = rev (dropWhile isWhiteSpace (rev (dropWhile isWhiteSpace s)))"

definition startsWith :: "js_string \<Rightarrow> js_string \<Rightarrow> bool" where
  "startsWith s p \<longleftrightarrow> take (length p) s = p"

text \<open>\<open>String.prototype.includes\<close>: the substring test.\<close>

fun includes_str :: "js_string \<Rightarrow> js_string \<Rightarrow> bool" where
  "includes_str [] sub \<longleftrightarrow> sub = []"
| "includes_str (c # cs) sub \<longleftrightarrow> startsWith (c # cs) sub \<or> includes_str cs sub"

section \<open>Messages\<close>

datatype role = user | assistant

record message =
  msg_id :: js_string
  role :: role
  content :: js_string

text \<open>The \<open>{ role, content }\<close> pairs handed to the upstream provider.\<close>

record formatted =
  f_role :: role
  f_content :: js_string

section \<open>The relay endpoint (api.tanchat.ts)\<close>

subsection \<open>Filtering and formatting the posted messages\<close>

definition sentinel :: js_string where
  "sentinel = js ''Sorry, I encountered an error''"

text \<open>The callback of \<open>messages.filter\<close> and the callback of \<open>.map\<close>.\<close>

definition keep :: "message \<Rightarrow> bool" where
  "keep msg \<longleftrightarrow> trim (content msg) \<noteq> [] \<and> \<not> startsWith (content msg) sentinel"

definition format :: "message \<Rightarrow> formatted" where
  "format msg = \<lparr> f_role = role msg, f_content = trim (content msg) \<rparr>"

definition formattedMessages :: "message list \<Rightarrow> formatted list" where
  "formattedMessages messages = map format (filter keep messages)"

subsection \<open>JSON values, thrown values, responses\<close>

text \<open>
  The values \<open>JSON.parse\<close> returns and \<open>JSON.stringify\<close> takes. An object lists each
  property once, in insertion order; a number is a finite one. \<open>undefined\<close> is not a
  JSON value: a property that is absent reads as \<open>None\<close>.
\<close>

datatype json =
    JNull
  | JBool bool
  | JNum rat
  | JStr js_string
  | JArr "json list"
  | JObj "(js_string \<times> json) list"

text \<open>
  What a \<open>catch\<close> clause receives: an instance of \<open>Error\<close> with its \<open>name\<close> and
  \<open>message\<close>, or any other thrown value.
\<close>

datatype thrown = Error (name: js_string) (message: js_string) | NonError

text \<open>
  A \<open>Response\<close>: its status, its \<open>Content-Type\<close> header and its body. A JSON body is kept
  as the object handed to \<open>JSON.stringify\<close>; a streamed body is the sequence of chunks
  enqueued on the \<open>ReadableStream\<close>, which then is closed (\<open>controller.close()\<close>) or
  errored (\<open>controller.error(error)\<close>). \<open>TextEncoder\<close> and \<open>TextDecoder\<close> are the
  platform's UTF-8 codec: chunks are kept as the text they encode.
\<close>

datatype stream_end = Closed | Errored thrown

datatype body = JsonBody json | StreamBody "js_string list" stream_end

record response =
  status :: nat
  contentType :: js_string
  body :: body

subsection \<open>The upstream provider\<close>

text \<open>
  An event of the provider's stream: its \<open>type\<close> and, for a \<open>content_block_delta\<close>, the
  \<open>type\<close> and \<open>text\<close> of its \<open>delta\<close> (the relay reads the delta of no other event).
\<close>

record upstream_event =
  ev_type :: js_string
  delta_type :: js_string
  delta_text :: js_string

text \<open>
  \<open>anthropic.messages.stream\<close>, opaque: given the formatted messages, the call throws, or
  it yields events and then ends or throws in the middle of the iteration.
\<close>

datatype upstream_outcome = OpenThrows thrown | Opened "upstream_event list" "thrown option"

type_synonym upstream = "formatted list \<Rightarrow> upstream_outcome"

subsection \<open>The transformed stream\<close>

definition chunk :: "js_string \<Rightarrow> json" where
  "chunk text =
     JObj [(js ''type'', JStr (js ''content_block_delta'')),
           (js ''delta'', JObj [(js ''type'', JStr (js ''text_delta'')),
                               (js ''text'', JStr text)])]"

text \<open>
  One iteration of \<open>for await (const event of stream)\<close>: \<open>queue\<close> is what
  \<open>controller.enqueue\<close> has received so far, \<open>stringify\<close> is \<open>JSON.stringify\<close>.
\<close>

definition enqueue_event ::
  "(json \<Rightarrow> js_string) \<Rightarrow> js_string list \<Rightarrow> upstream_event \<Rightarrow> js_string list" where
  "enqueue_event stringify queue event =
     (if ev_type event = js ''content_block_delta'' \<and> delta_type event = js ''text_delta''
      then queue @ [stringify (chunk (delta_text event)) @ [nl]]
      else queue)"

definition transformedStream ::
  "(json \<Rightarrow> js_string) \<Rightarrow> upstream_event list \<Rightarrow> js_string list" where
  "transformedStream stringify events = foldl (enqueue_event stringify) [] events"

subsection \<open>The handler\<close>

text \<open>
  What \<open>await request.json()\<close> and the destructuring of \<open>messages\<close> give: they throw
  (\<open>Unreadable\<close>); or \<open>messages\<close> is a value on which \<open>.filter\<close> or a callback throws
  (\<open>Malformed\<close>, with the TypeError); or it is an array of messages.
\<close>

datatype request_body = Unreadable thrown | Malformed thrown | Messages "message list"

definition missingKey :: thrown where
  "missingKey = Error (js ''Error'')
     (js ''Missing API key: Please set ANTHROPIC_API_KEY in your environment variables or .env file.'')"

definition jsonResponse :: "nat \<Rightarrow> json \<Rightarrow> response" where
  "jsonResponse st obj =
     \<lparr> status = st, contentType = js ''application/json'', body = JsonBody obj \<rparr>"

text \<open>
  The \<open>try\<close> block. The result is the value thrown or the response returned, with the
  calls made to \<open>anthropic.messages.stream\<close> (their \<open>messages\<close> argument). \<open>apiKey\<close> is
  \<open>process.env.ANTHROPIC_API_KEY\<close>, \<open>None\<close> when undefined; \<open>!apiKey\<close> also holds of the
  empty string. The statements run in the order of the source: the body is read, the key
  is tested, the messages are filtered, the provider is called.
\<close>

definition POST_try ::
  "(json \<Rightarrow> js_string) \<Rightarrow> upstream \<Rightarrow> js_string option \<Rightarrow> request_body
     \<Rightarrow> (thrown + response) \<times> formatted list list" where
  "POST_try stringify anthropic apiKey request =
     (case request of
        Unreadable e \<Rightarrow> (Inl e, [])
      | _ \<Rightarrow>
        if apiKey = None \<or> apiKey = Some [] then (Inl missingKey, [])
        else
          (case request of
             Unreadable e \<Rightarrow> (Inl e, [])
           | Malformed e \<Rightarrow> (Inl e, [])
           | Messages messages \<Rightarrow>
               let formatted = formattedMessages messages in
               if length formatted = 0
               then (Inr (jsonResponse 400
                            (JObj [(js ''error'', JStr (js ''No valid messages to send''))])), [])
               else
                 (case anthropic formatted of
                    OpenThrows e \<Rightarrow> (Inl e, [formatted])
                  | Opened events failure \<Rightarrow>
                      (Inr \<lparr> status = 200, contentType = js ''application/x-ndjson'',
                              body = StreamBody (transformedStream stringify events)
                                       (case failure of None \<Rightarrow> Closed | Some e \<Rightarrow> Errored e) \<rparr>,
                       [formatted]))))"

text \<open>
  The \<open>catch\<close> block: \<open>errorMessage\<close> and \<open>statusCode\<close> start from their defaults and
  are reassigned by the first branch that applies.
\<close>

definition classify :: "thrown \<Rightarrow> js_string \<times> nat" where
  "classify error =
     (let errorMessage = js ''Failed to get AI response''; statusCode = 500 in
      case error of
        NonError \<Rightarrow> (errorMessage, statusCode)
      | Error ename emessage \<Rightarrow>
          if includes_str emessage (js ''rate limit'')
          then (js ''Rate limit exceeded. Please try again in a moment.'', statusCode)
          else if includes_str emessage (js ''Connection error'') \<or> ename = js ''APIConnectionError''
          then (js ''Connection to Anthropic API failed. Please check your internet connection and API key.'', 503)
          else if includes_str emessage (js ''authentication'')
          then (js ''Authentication failed. Please check your Anthropic API key.'', 401)
          else (emessage, statusCode))"

definition errorResponse :: "thrown \<Rightarrow> response" where
  "errorResponse error =
     (let (errorMessage, statusCode) = classify error in
      jsonResponse statusCode
        (JObj ((js ''error'', JStr errorMessage) #
               (case error of Error ename emessage \<Rightarrow> [(js ''details'', JStr ename)]
                | NonError \<Rightarrow> []))))"

definition POST ::
  "(json \<Rightarrow> js_string) \<Rightarrow> upstream \<Rightarrow> js_string option \<Rightarrow> request_body
     \<Rightarrow> response \<times> formatted list list" where
  "POST stringify anthropic apiKey request =
     (case POST_try stringify anthropic apiKey request of
        (Inl error, calls) \<Rightarrow> (errorResponse error, calls)
      | (Inr resp, calls) \<Rightarrow> (resp, calls))"

section \<open>The chat client (handleSubmit)\<close>

subsection \<open>Reading a parsed line\<close>

text \<open>
  A property read on a value that is not \<open>null\<close>. The client reads \<open>type\<close>, \<open>delta\<close> and
  \<open>text\<close> only, which are properties of objects alone: on a boolean, a number, a string or
  an array they are \<open>undefined\<close>.
\<close>

definition get :: "json \<Rightarrow> js_string \<Rightarrow> json option" where
  "get v k = (case v of JObj props \<Rightarrow> map_of props k | _ \<Rightarrow> None)"

text \<open>\<open>json.delta?.text\<close>: \<open>undefined\<close> when \<open>delta\<close> is \<open>undefined\<close> or \<open>null\<close>.\<close>

definition delta_text_of :: "json \<Rightarrow> json option" where
  "delta_text_of v =
     (case get v (js ''delta'') of
        None \<Rightarrow> None
      | Some JNull \<Rightarrow> None
      | Some d \<Rightarrow> get d (js ''text''))"

definition truthy :: "json option \<Rightarrow> bool" where
  "truthy v =
     (case v of
        None \<Rightarrow> False
      | Some JNull \<Rightarrow> False
      | Some (JBool b) \<Rightarrow> b
      | Some (JNum q) \<Rightarrow> q \<noteq> 0
      | Some (JStr s) \<Rightarrow> s \<noteq> []
      | Some (JArr xs) \<Rightarrow> True
      | Some (JObj props) \<Rightarrow> True)"

text \<open>
  \<open>newMessage.content + json.delta.text\<close>: a string is appended as it is, any other value
  through the language's conversion to a string, \<open>toStr\<close>.
\<close>

definition plus_text :: "(json \<Rightarrow> js_string) \<Rightarrow> js_string \<Rightarrow> json option \<Rightarrow> js_string" where
  "plus_text toStr s v =
     (case v of None \<Rightarrow> s | Some (JStr t) \<Rightarrow> s @ t | Some w \<Rightarrow> s @ toStr w)"

subsection \<open>State\<close>

text \<open>The component's state: the four \<open>useState\<close> cells.\<close>

record client =
  messages :: "message list"
  input :: js_string
  isLoading :: bool
  pendingMessage :: "message option"

text \<open>
  The local variables of one run of \<open>handleSubmit\<close> while it reads the stream. \<open>parsed\<close>
  is not in the source: it records the arguments of the calls to \<open>JSON.parse\<close>, in order.
\<close>

record turn =
  newMessage :: message
  buffer :: js_string
  parsed :: "js_string list"

subsection \<open>The line buffer\<close>

text \<open>\<open>buffer.split('\n')\<close>: never an empty array.\<close>

fun split_nl :: "js_string \<Rightarrow> js_string list" where
  "split_nl [] = [[]]"
| "split_nl (c # cs) =
     (if c = nl then [] # split_nl cs
      else (case split_nl cs of [] \<Rightarrow> [[c]] | l # ls \<Rightarrow> (c # l) # ls))"

text \<open>
  The body of \<open>for (const line of lines)\<close>; \<open>parse\<close> is \<open>JSON.parse\<close>, \<open>Inl\<close> when it
  throws. Reading \<open>json.type\<close> of \<open>null\<close> throws too; the \<open>catch\<close> logs either error and
  the loop goes on.
\<close>

definition processLine ::
  "(js_string \<Rightarrow> thrown + json) \<Rightarrow> (json \<Rightarrow> js_string) \<Rightarrow> turn \<times> client \<Rightarrow> js_string
     \<Rightarrow> turn \<times> client" where
  "processLine parse toStr tc line =
     (let (t, c) = tc in
      if trim line \<noteq> [] then
        (let t1 = t\<lparr>parsed := parsed t @ [line]\<rparr> in
         case parse line of
           Inl e \<Rightarrow> (t1, c)
         | Inr JNull \<Rightarrow> (t1, c)
         | Inr json \<Rightarrow>
             if get json (js ''type'') = Some (JStr (js ''content_block_delta'')) \<and>
                truthy (delta_text_of json)
             then
               (let m = (newMessage t1)
                          \<lparr>content := plus_text toStr (content (newMessage t1)) (delta_text_of json)\<rparr>
                in (t1\<lparr>newMessage := m\<rparr>, c\<lparr>pendingMessage := Some m\<rparr>))
             else (t1, c))
      else (t, c))"

text \<open>
  The body of \<open>if (!done && result.value)\<close>, for a read whose bytes decode to \<open>text\<close>
  (the empty string when the read ends inside a multi-byte character).
  \<open>lines.pop() || ''\<close> is the last fragment.
\<close>

definition processChunk ::
  "(js_string \<Rightarrow> thrown + json) \<Rightarrow> (json \<Rightarrow> js_string) \<Rightarrow> turn \<times> client \<Rightarrow> js_string
     \<Rightarrow> turn \<times> client" where
  "processChunk parse toStr tc text =
     (let (t, c) = tc;
          lines = split_nl (buffer t @ text);
          popped = (if lines = [] then [] else last lines)
      in foldl (processLine parse toStr) (t\<lparr>buffer := popped\<rparr>, c) (butlast lines))"

text \<open>The \<open>while (!done)\<close> loop over the reads of a stream that ends.\<close>

definition readLoop ::
  "(js_string \<Rightarrow> thrown + json) \<Rightarrow> (json \<Rightarrow> js_string) \<Rightarrow> turn \<times> client \<Rightarrow> js_string list
     \<Rightarrow> turn \<times> client" where
  "readLoop parse toStr tc chunks = foldl (processChunk parse toStr) tc chunks"

subsection \<open>The steps of handleSubmit\<close>

text \<open>\<open>Number.prototype.toString\<close> of a non-negative integer, for \<open>Date.now()\<close>.\<close>

fun decimal :: "nat \<Rightarrow> js_string" where
  "decimal n =
     (if n < 10 then [of_nat (48 + n)] else decimal (n div 10) @ [of_nat (48 + n mod 10)])"

declare decimal.simps [simp del]

text \<open>\<open>if (!input.trim() || isLoading) return\<close>, and the button's \<open>disabled\<close>.\<close>

definition submitGuard :: "client \<Rightarrow> bool" where
  "submitGuard c \<longleftrightarrow> trim (input c) \<noteq> [] \<and> \<not> isLoading c"


definition userMessage :: "nat \<Rightarrow> client \<Rightarrow> message" where
  "userMessage now c = \<lparr> msg_id = decimal now, role = user, content = trim (input c) \<rparr>"

text \<open>The request body: \<open>[...messages, userMessage]\<close>.\<close>

definition requestMessages :: "nat \<Rightarrow> client \<Rightarrow> message list" where
  "requestMessages now c = messages c @ [userMessage now c]"

text \<open>Up to the call of \<open>fetch\<close>, when the handler's render is the current state.\<close>

definition beginSubmit :: "nat \<Rightarrow> client \<Rightarrow> client" where
  "beginSubmit now c =
     c\<lparr> input := [], isLoading := True, messages := messages c @ [userMessage now c] \<rparr>"

definition newTurn :: "nat \<Rightarrow> turn" where
  "newTurn now =
     \<lparr> newMessage = \<lparr> msg_id = decimal (now + 1), role = assistant, content = [] \<rparr>,
       buffer = [], parsed = [] \<rparr>"

text \<open>After the loop: the stream has ended.\<close>

definition streamEnd :: "turn \<Rightarrow> client \<Rightarrow> client" where
  "streamEnd t c =
     (let c1 = c\<lparr>pendingMessage := None\<rparr> in
      if trim (content (newMessage t)) \<noteq> []
      then c1\<lparr>messages := messages c1 @ [newMessage t]\<rparr>
      else c1)"

text \<open>The \<open>catch\<close> and \<open>finally\<close> blocks.\<close>

definition errorMessage :: "nat \<Rightarrow> message" where
  "errorMessage now =
     \<lparr> msg_id = decimal (now + 1), role = assistant,
       content = js ''Sorry, I encountered an error. Please check your API key and try again.'' \<rparr>"

definition catchError :: "nat \<Rightarrow> client \<Rightarrow> client" where
  "catchError now c = c\<lparr>messages := messages c @ [errorMessage now]\<rparr>"

definition finallyBlock :: "client \<Rightarrow> client" where
  "finallyBlock c = c\<lparr>isLoading := False\<rparr>"

subsection \<open>One run of handleSubmit\<close>

text \<open>
  What \<open>fetch\<close> gives: it rejects; or it resolves to a response with its \<open>ok\<close> flag and,
  when \<open>response.body\<close> is there, the reads of its reader: the decoded text of each
  read, then \<open>done\<close> or a rejected read.
\<close>

datatype read_end = Done | ReadRejects

datatype fetch_result =
    FetchRejects
  | Fetched bool "(js_string list \<times> read_end) option"

text \<open>
  A run with no other event of the page in between. \<open>now0\<close>, \<open>now1\<close> and \<open>now2\<close> are
  the readings of \<open>Date.now()\<close> for the user message, the assistant message and the
  error message.
\<close>

definition handleSubmit ::
  "(js_string \<Rightarrow> thrown + json) \<Rightarrow> (json \<Rightarrow> js_string) \<Rightarrow> nat \<Rightarrow> nat \<Rightarrow> nat
     \<Rightarrow> fetch_result \<Rightarrow> client \<Rightarrow> client" where
  "handleSubmit parse toStr now0 now1 now2 fetched c =
     (if \<not> submitGuard c then c
      else
        let c1 = beginSubmit now0 c in
        finallyBlock
          (case fetched of
             FetchRejects \<Rightarrow> catchError now2 c1
           | Fetched ok reader \<Rightarrow>
               if \<not> ok then catchError now2 c1
               else
                 (case reader of
                    None \<Rightarrow> catchError now2 c1
                  | Some (chunks, ending) \<Rightarrow>
                      let (t, c2) = readLoop parse toStr (newTurn now1, c1) chunks in
                      (case ending of
                         Done \<Rightarrow> streamEnd t c2
                       | ReadRejects \<Rightarrow> catchError now2 c2))))"

subsection \<open>The page as a transition system\<close>

text \<open>
  Runs of \<open>handleSubmit\<close> are asynchronous: between two of its steps the page handles
  other events, among them further submits. \<open>flights\<close> holds the runs that have called
  \<open>fetch\<close> and have not reached \<open>finally\<close>: each waits for the response or reads the
  stream with its own local variables.

  \<open>handleSubmit\<close> is a \<open>useCallback\<close> closure, and the button's \<open>disabled\<close> is computed
  in the render: both read \<open>input\<close>, \<open>isLoading\<close> and \<open>messages\<close> as they were at the
  last render, \<open>rendered\<close>, not the state the setters have written since, \<open>ui\<close>.
\<close>

datatype activation = Fetching | Reading turn

record page =
  ui :: client
  rendered :: client
  flights :: "activation list"

text \<open>
  The events: the textarea's \<open>onChange\<close>; a render of the component; a submit of the form
  (the button, or Enter in the textarea) at a reading of \<open>Date.now()\<close>; and, for the run
  at position \<open>i\<close> of \<open>flights\<close>: the fetch fails (it rejects, the response is not \<open>ok\<close>
  or has no reader), the fetch succeeds, a read returns text, a read returns \<open>done\<close>, a
  read rejects.
\<close>

datatype event =
    Change js_string
  | Render
  | Submit nat
  | FetchFails nat nat
  | FetchOk nat nat
  | Read nat js_string
  | ReadDone nat
  | ReadFails nat nat

definition landed :: "nat \<Rightarrow> activation list \<Rightarrow> activation list" where
  "landed i fs = take i fs @ drop (Suc i) fs"

text \<open>
  \<open>handleSubmit\<close> up to the call of \<open>fetch\<close>, run by the handler of the render \<open>r\<close> on
  the current state \<open>c\<close>: \<open>currentInput\<close> is the closure's \<open>input\<close>; the setters write
  the current state, \<open>setMessages\<close> through its updater function.
\<close>

definition submitFrom :: "nat \<Rightarrow> client \<Rightarrow> client \<Rightarrow> client" where
  "submitFrom now r c =
     c\<lparr> input := [], isLoading := True, messages := messages c @ [userMessage now r] \<rparr>"

text \<open>
  The guard of a submit reads the closure. The later steps of a run read no state: they
  use the setters and the run's local variables only. An event of a run that is not at
  that point leaves the page as it is.
\<close>

definition step ::
  "(js_string \<Rightarrow> thrown + json) \<Rightarrow> (json \<Rightarrow> js_string) \<Rightarrow> page \<Rightarrow> event \<Rightarrow> page" where
  "step parse toStr s e =
     (case e of
        Change v \<Rightarrow> s\<lparr>ui := (ui s)\<lparr>input := v\<rparr>\<rparr>
      | Render \<Rightarrow> s\<lparr>rendered := ui s\<rparr>
      | Submit now \<Rightarrow>
          if \<not> submitGuard (rendered s) then s
          else s\<lparr> ui := submitFrom now (rendered s) (ui s), flights := flights s @ [Fetching] \<rparr>
      | FetchFails i now \<Rightarrow>
          if i < length (flights s) \<and> flights s ! i = Fetching
          then s\<lparr> ui := finallyBlock (catchError now (ui s)), flights := landed i (flights s) \<rparr>
          else s
      | FetchOk i now \<Rightarrow>
          if i < length (flights s) \<and> flights s ! i = Fetching
          then s\<lparr>flights := (flights s)[i := Reading (newTurn now)]\<rparr>
          else s
      | Read i text \<Rightarrow>
          if i < length (flights s)
          then (case flights s ! i of
                  Fetching \<Rightarrow> s
                | Reading t \<Rightarrow>
                    let (t', c') = processChunk parse toStr (t, ui s) text
                    in s\<lparr> ui := c', flights := (flights s)[i := Reading t'] \<rparr>)
          else s
      | ReadDone i \<Rightarrow>
          if i < length (flights s)
          then (case flights s ! i of
                  Fetching \<Rightarrow> s
                | Reading t \<Rightarrow>
                    s\<lparr> ui := finallyBlock (streamEnd t (ui s)), flights := landed i (flights s) \<rparr>)
          else s
      | ReadFails i now \<Rightarrow>
          if i < length (flights s)
          then (case flights s ! i of
                  Fetching \<Rightarrow> s
                | Reading t \<Rightarrow>
                    s\<lparr> ui := finallyBlock (catchError now (ui s)), flights := landed i (flights s) \<rparr>)
          else s)"




text \<open>
  The events of a run of \<open>handleSubmit\<close> that no other event interrupts, for each outcome
  of the fetch.
\<close>

definition script :: "nat \<Rightarrow> nat \<Rightarrow> nat \<Rightarrow> fetch_result \<Rightarrow> event list" where
  "script now0 now1 now2 fetched =
     Submit now0 #
     (case fetched of
        FetchRejects \<Rightarrow> [FetchFails 0 now2]
      | Fetched ok reader \<Rightarrow>
          if \<not> ok then [FetchFails 0 now2]
          else
            (case reader of
               None \<Rightarrow> [FetchFails 0 now2]
             | Some (chunks, ending) \<Rightarrow>
                 FetchOk 0 now1 # map (Read 0) chunks @
                 (case ending of Done \<Rightarrow> [ReadDone 0] | ReadRejects \<Rightarrow> [ReadFails 0 now2])))"

subsection \<open>Invariants of the client\<close>

text \<open>
  What reading the stream never touches: the history, the input, the loading flag, and
  the id and role of the message under construction.
\<close>

definition untouched :: "turn \<times> client \<Rightarrow> turn \<times> client \<Rightarrow> bool" where
  "untouched tc tc' \<longleftrightarrow>
     messages (snd tc') = messages (snd tc) \<and>
     input (snd tc') = input (snd tc) \<and>
     isLoading (snd tc') = isLoading (snd tc) \<and>
     msg_id (newMessage (fst tc')) = msg_id (newMessage (fst tc)) \<and>
     role (newMessage (fst tc')) = role (newMessage (fst tc))"


section \<open>A codec for the lines of the relay\<close>

text \<open>
  \<open>JSON.stringify\<close> and \<open>JSON.parse\<close> belong to the platform, and the results below take
  them as the parameters \<open>stringify\<close> and \<open>parse\<close>. The examples instantiate them with
  this codec: \<open>stringifyChunk\<close> writes a chunk object as \<open>JSON.stringify\<close> does for a text
  with no unpaired surrogate and no control character other than the five with a short
  escape, and \<open>parseChunk\<close> reads such a line back and rejects any other text.
\<close>

definition quoteUnit :: "code_unit \<Rightarrow> js_string" where
  "quoteUnit c =
     (if c = 0x22 then [0x5C, 0x22]
      else if c = 0x5C then [0x5C, 0x5C]
      else if c = 0x08 then [0x5C, 0x62]
      else if c = 0x09 then [0x5C, 0x74]
      else if c = 0x0A then [0x5C, 0x6E]
      else if c = 0x0C then [0x5C, 0x66]
      else if c = 0x0D then [0x5C, 0x72]
      else [c])"

definition quoteJSON :: "js_string \<Rightarrow> js_string" where
  "quoteJSON text = 0x22 # concat (map quoteUnit text) @ [0x22]"

definition unescape :: "code_unit \<Rightarrow> code_unit option" where
  "unescape d =
     (if d = 0x22 then Some 0x22
      else if d = 0x5C then Some 0x5C
      else if d = 0x62 then Some 0x08
      else if d = 0x74 then Some 0x09
      else if d = 0x6E then Some 0x0A
      else if d = 0x66 then Some 0x0C
      else if d = 0x72 then Some 0x0D
      else None)"

fun unquote :: "js_string \<Rightarrow> js_string option" where
  "unquote [] = Some []"
| "unquote [c] = (if c = 0x5C \<or> c = 0x22 then None else Some [c])"
| "unquote (c # d # ds) =
     (if c = 0x5C
      then (case unescape d of
              None \<Rightarrow> None
            | Some u \<Rightarrow> map_option ((#) u) (unquote ds))
      else if c = 0x22 then None
      else map_option ((#) c) (unquote (d # ds)))"

definition quoted :: "string \<Rightarrow> js_string" where
  "quoted s = 0x22 # js s @ [0x22]"

definition linePrefix :: js_string where
  "linePrefix =
     js ''{'' @ quoted ''type'' @ js '':'' @ quoted ''content_block_delta'' @ js '','' @
     quoted ''delta'' @ js '':{'' @ quoted ''type'' @ js '':'' @ quoted ''text_delta'' @
     js '','' @ quoted ''text'' @ js '':''"

definition stringifyChunk :: "json \<Rightarrow> js_string" where
  "stringifyChunk v =
     (case delta_text_of v of
        Some (JStr text) \<Rightarrow> linePrefix @ quoteJSON text @ js ''}}''
      | _ \<Rightarrow> js ''null'')"

definition syntaxError :: thrown where
  "syntaxError = Error (js ''SyntaxError'') (js ''Unexpected token'')"

definition parseChunk :: "js_string \<Rightarrow> thrown + json" where
  "parseChunk line =
     (let p = length linePrefix + 1 in
      if p + 3 \<le> length line \<and> take p line = linePrefix @ [0x22] \<and>
         drop (length line - 3) line = 0x22 # js ''}}''
      then (case unquote (take (length line - 3 - p) (drop p line)) of
              None \<Rightarrow> Inl syntaxError
            | Some text \<Rightarrow> Inr (chunk text))
      else Inl syntaxError)"

subsection \<open>The scenario of the specification\<close>

text \<open>
  The user types \<open>Hello\<close>; the provider answers with the deltas \<open>Hi\<close>, \<open> there\<close> and
  \<open>!\<close>, among events of other kinds.
\<close>

definition textDelta :: "js_string \<Rightarrow> upstream_event" where
  "textDelta s =
     \<lparr> ev_type = js ''content_block_delta'', delta_type = js ''text_delta'', delta_text = s \<rparr>"

definition exampleEvents :: "upstream_event list" where
  "exampleEvents =
     [\<lparr> ev_type = js ''message_start'', delta_type = [], delta_text = [] \<rparr>,
      textDelta (js ''Hi''),
      textDelta (js '' there''),
      \<lparr> ev_type = js ''content_block_delta'', delta_type = js ''input_json_delta'',
        delta_text = [] \<rparr>,
      textDelta (js ''!''),
      \<lparr> ev_type = js ''message_stop'', delta_type = [], delta_text = [] \<rparr>]"

definition typedHello :: client where
  "typedHello =
     \<lparr> messages = [], input = js ''Hello'', isLoading = False, pendingMessage = None \<rparr>"

section \<open>Properties of the relay\<close>

subsection \<open>Auxiliary facts\<close>


lemma foldl_enqueue_event:
  "foldl (enqueue_event stringify) queue events =
     queue @ map (\<lambda>e. stringify (chunk (delta_text e)) @ [nl])
       (filter (\<lambda>e. ev_type e = js ''content_block_delta'' \<and> delta_type e = js ''text_delta'') events)"
  by (induction events arbitrary: queue) (simp_all add: enqueue_event_def)

lemma transformedStream_map_filter:
  "transformedStream stringify events =
     map (\<lambda>e. stringify (chunk (delta_text e)) @ [nl])
       (filter (\<lambda>e. ev_type e = js ''content_block_delta'' \<and> delta_type e = js ''text_delta'')
          events)"
  by (simp add: transformedStream_def foldl_enqueue_event)

lemma classify_missingKey: "classify missingKey = (message missingKey, 500)"
  by (simp add: classify_def missingKey_def js_def startsWith_def)

lemma errorResponse_missingKey:
  "errorResponse missingKey =
     jsonResponse 500 (JObj [(js ''error'', JStr (message missingKey)),
                             (js ''details'', JStr (js ''Error''))])"
  by (simp add: errorResponse_def classify_missingKey) (simp add: missingKey_def)

lemma POST_try_no_key:
  "apiKey = None \<or> apiKey = Some [] \<Longrightarrow>
   POST_try stringify anthropic apiKey request =
     (case request of Unreadable e \<Rightarrow> (Inl e, []) | _ \<Rightarrow> (Inl missingKey, []))"
  by (auto simp add: POST_try_def split: request_body.splits)

lemma POST_try_open_throws:
  "POST_try stringifyChunk (\<lambda>ms. OpenThrows e) (Some (js ''sk-test''))
     (Messages [\<lparr>msg_id = js ''1'', role = user, content = js ''Hello''\<rparr>]) =
   (Inl e, [[\<lparr>f_role = user, f_content = js ''Hello''\<rparr>]])"
  by (simp add: POST_try_def formattedMessages_def keep_def format_def sentinel_def trim_def
      isWhiteSpace_def startsWith_def js_def)

subsection \<open>The filtered message list\<close>


subsection \<open>An empty filtered list\<close>

text \<open>
  Claim C4, as stated, fails: the handler checks the API key before it filters the
  messages. With no key and an empty message list the thrown missing-key error is
  answered with status 500, not 400.
\<close>

theorem empty_list_without_key_counterexample:
  "formattedMessages [] = [] \<and>
   fst (POST stringifyChunk (\<lambda>ms. Opened [] None) None (Messages [])) =
     jsonResponse 500 (JObj [(js ''error'', JStr (message missingKey)),
                             (js ''details'', JStr (js ''Error''))]) \<and>
   status (fst (POST stringifyChunk (\<lambda>ms. Opened [] None) None (Messages []))) \<noteq> 400"
  by (simp add: POST_def POST_try_no_key errorResponse_missingKey formattedMessages_def)
    (simp add: jsonResponse_def)

text \<open>
  Claim C4, amended. For every POST made while an API key is configured, whose message
  list is empty after filtering, the endpoint returns status 400 with the single JSON
  object \<open>{ error: 'No valid messages to send' }\<close> and makes no call to the upstream
  provider.
\<close>

theorem empty_list_with_key_is_400:
  assumes "apiKey = Some k" and "k \<noteq> []" and "formattedMessages msgs = []"
  shows "POST stringify anthropic apiKey (Messages msgs) =
     (jsonResponse 400 (JObj [(js ''error'', JStr (js ''No valid messages to send''))]), [])"
  using assms by (simp add: POST_def POST_try_def)

text \<open>
  An instance: a blank message and an error placeholder, with a key configured.
\<close>

theorem empty_list_with_key_is_400_witness:
  "formattedMessages
     [\<lparr>msg_id = js ''1'', role = user, content = js '' ''\<rparr>,
      \<lparr>msg_id = js ''2'', role = assistant,
        content = js ''Sorry, I encountered an error. Please check your API key and try again.''\<rparr>] = [] \<and>
   POST stringifyChunk (\<lambda>ms. Opened [] None) (Some (js ''sk-test''))
     (Messages
       [\<lparr>msg_id = js ''1'', role = user, content = js '' ''\<rparr>,
        \<lparr>msg_id = js ''2'', role = assistant,
          content = js ''Sorry, I encountered an error. Please check your API key and try again.''\<rparr>]) =
     (jsonResponse 400 (JObj [(js ''error'', JStr (js ''No valid messages to send''))]), [])"
proof -
  let ?msgs = "[\<lparr>msg_id = js ''1'', role = user, content = js '' ''\<rparr>,
      \<lparr>msg_id = js ''2'', role = assistant,
        content = js ''Sorry, I encountered an error. Please check your API key and try again.''\<rparr>]"
  have e: "formattedMessages ?msgs = []"
    by (simp add: formattedMessages_def keep_def sentinel_def trim_def isWhiteSpace_def
        startsWith_def js_def)
  have k: "js ''sk-test'' \<noteq> []"
    by (simp add: js_def)
  show ?thesis
    using e empty_list_with_key_is_400 [OF refl k e] by simp
qed

subsection \<open>Classification of caught errors\<close>

text \<open>
  Claim C6, as stated, fails where two classes overlap, because the \<open>catch\<close> block is an
  \<open>if\<close>/\<open>else if\<close> chain: an error whose message contains \<open>authentication\<close> and also
  \<open>Connection error\<close> is answered with 503, not 401; and a connection failure whose
  message contains \<open>rate limit\<close> is answered with the try-again message and 500, not 503.
\<close>

theorem overlapping_classes_counterexample:
  "includes_str (js ''Connection error while checking authentication'') (js ''authentication'') \<and>
   POST stringifyChunk
     (\<lambda>ms. OpenThrows (Error (js ''Error'') (js ''Connection error while checking authentication'')))
     (Some (js ''sk-test''))
     (Messages [\<lparr>msg_id = js ''1'', role = user, content = js ''Hello''\<rparr>]) =
   (jsonResponse 503
      (JObj [(js ''error'', JStr (js ''Connection to Anthropic API failed. Please check your internet connection and API key.'')),
             (js ''details'', JStr (js ''Error''))]),
    [[\<lparr>f_role = user, f_content = js ''Hello''\<rparr>]]) \<and>
   POST stringifyChunk
     (\<lambda>ms. OpenThrows (Error (js ''APIConnectionError'') (js ''Connection error: rate limit reached'')))
     (Some (js ''sk-test''))
     (Messages [\<lparr>msg_id = js ''1'', role = user, content = js ''Hello''\<rparr>]) =
   (jsonResponse 500
      (JObj [(js ''error'', JStr (js ''Rate limit exceeded. Please try again in a moment.'')),
             (js ''details'', JStr (js ''APIConnectionError''))]),
    [[\<lparr>f_role = user, f_content = js ''Hello''\<rparr>]])"
proof -
  have c: "includes_str (js ''Connection error while checking authentication'') (js ''authentication'')"
    "\<not> includes_str (js ''Connection error while checking authentication'') (js ''rate limit'')"
    "includes_str (js ''Connection error while checking authentication'') (js ''Connection error'')"
    "includes_str (js ''Connection error: rate limit reached'') (js ''rate limit'')"
    by (simp_all add: js_def startsWith_def)
  show ?thesis
    by (simp add: POST_def POST_try_open_throws errorResponse_def classify_def c)
qed

text \<open>
  Claim C6, amended. Whenever the \<open>try\<close> block throws, which can only happen before a
  streamed response is returned, the response is one JSON object \<open>{ error, details? }\<close>,
  with \<open>details\<close> the error's name when the thrown value is an \<open>Error\<close>. Its message and
  status come from the first class that applies, tried in this order: a message
  containing \<open>rate limit\<close> gives the try-again message and the default status 500;
  otherwise a connection failure (a message containing \<open>Connection error\<close>, or the name
  \<open>APIConnectionError\<close>) gives 503; otherwise a message containing \<open>authentication\<close>
  gives 401; any other \<open>Error\<close> gives 500 with its own message. A thrown value that is no
  \<open>Error\<close> gives 500 with the default message and no \<open>details\<close>.
\<close>

theorem caught_error_classified:
  assumes "POST_try stringify anthropic apiKey request = (Inl e, calls)"
  shows "\<exists>msg st.
    POST stringify anthropic apiKey request =
      (jsonResponse st
         (JObj ((js ''error'', JStr msg) #
                (case e of Error n m \<Rightarrow> [(js ''details'', JStr n)] | NonError \<Rightarrow> []))),
       calls) \<and>
    (case e of
       NonError \<Rightarrow> msg = js ''Failed to get AI response'' \<and> st = 500
     | Error n m \<Rightarrow>
         (includes_str m (js ''rate limit'') \<longrightarrow>
            msg = js ''Rate limit exceeded. Please try again in a moment.'' \<and> st = 500) \<and>
         (\<not> includes_str m (js ''rate limit'') \<and>
          (includes_str m (js ''Connection error'') \<or> n = js ''APIConnectionError'') \<longrightarrow>
            msg = js ''Connection to Anthropic API failed. Please check your internet connection and API key.'' \<and>
            st = 503) \<and>
         (\<not> includes_str m (js ''rate limit'') \<and>
          \<not> (includes_str m (js ''Connection error'') \<or> n = js ''APIConnectionError'') \<and>
          includes_str m (js ''authentication'') \<longrightarrow>
            msg = js ''Authentication failed. Please check your Anthropic API key.'' \<and> st = 401) \<and>
         (\<not> includes_str m (js ''rate limit'') \<and>
          \<not> (includes_str m (js ''Connection error'') \<or> n = js ''APIConnectionError'') \<and>
          \<not> includes_str m (js ''authentication'') \<longrightarrow>
            msg = m \<and> st = 500))"
proof (cases e)
  case (Error n m)
  then show ?thesis
    using assms by (simp add: POST_def errorResponse_def classify_def)
next
  case NonError
  then show ?thesis
    using assms by (simp add: POST_def errorResponse_def classify_def)
qed

text \<open>
  Two instances: the upstream call throws a connection error, and an error whose message
  mentions a rate limit.
\<close>

theorem caught_error_classified_witness:
  "POST stringifyChunk (\<lambda>ms. OpenThrows (Error (js ''APIConnectionError'') (js ''Connection error.'')))
     (Some (js ''sk-test''))
     (Messages [\<lparr>msg_id = js ''1'', role = user, content = js ''Hello''\<rparr>]) =
   (jsonResponse 503
      (JObj [(js ''error'', JStr (js ''Connection to Anthropic API failed. Please check your internet connection and API key.'')),
             (js ''details'', JStr (js ''APIConnectionError''))]),
    [[\<lparr>f_role = user, f_content = js ''Hello''\<rparr>]]) \<and>
   POST stringifyChunk (\<lambda>ms. OpenThrows (Error (js ''Error'') (js ''429 rate limit reached'')))
     (Some (js ''sk-test''))
     (Messages [\<lparr>msg_id = js ''1'', role = user, content = js ''Hello''\<rparr>]) =
   (jsonResponse 500
      (JObj [(js ''error'', JStr (js ''Rate limit exceeded. Please try again in a moment.'')),
             (js ''details'', JStr (js ''Error''))]),
    [[\<lparr>f_role = user, f_content = js ''Hello''\<rparr>]])"
proof -
  have c: "\<not> includes_str (js ''Connection error.'') (js ''rate limit'')"
    "includes_str (js ''Connection error.'') (js ''Connection error'')"
    "includes_str (js ''429 rate limit reached'') (js ''rate limit'')"
    by (simp_all add: js_def startsWith_def)
  show ?thesis
    using caught_error_classified
      [OF POST_try_open_throws [of "Error (js ''APIConnectionError'') (js ''Connection error.'')"]]
      caught_error_classified
      [OF POST_try_open_throws [of "Error (js ''Error'') (js ''429 rate limit reached'')"]]
      c
    by auto
qed

subsection \<open>A missing API key\<close>

text \<open>
  Claim C7, as stated, fails for a request whose body cannot be read: \<open>request.json()\<close>
  runs before the key is looked at, and the error it throws is the one reported.
\<close>

theorem unreadable_body_without_key_counterexample:
  "fst (POST stringifyChunk (\<lambda>ms. Opened [] None) None
         (Unreadable (Error (js ''SyntaxError'') (js ''Unexpected end of JSON input'')))) =
     jsonResponse 500
       (JObj [(js ''error'', JStr (js ''Unexpected end of JSON input'')),
              (js ''details'', JStr (js ''SyntaxError''))]) \<and>
   \<not> startsWith (js ''Unexpected end of JSON input'') (js ''Missing API key:'')"
  by (simp add: POST_def POST_try_def errorResponse_def classify_def startsWith_def js_def)

text \<open>
  Claim C7, amended. For every request handled while the API key is absent (undefined or
  empty), the endpoint makes no call to the upstream provider and answers with a single
  JSON object, never a stream. When the body of the request can be read, that object is
  \<open>{ error, details: 'Error' }\<close> with status 500 and an \<open>error\<close> that begins with
  \<open>Missing API key:\<close>. When the body cannot be read, it is the answer of the \<open>catch\<close>
  block to the error that \<open>request.json()\<close> threw, classified as any caught error is:
  for an \<open>Error\<close>, its own message and name with status 500, unless it falls in the
  rate-limit, connection or authentication class.
\<close>

theorem missing_key_fails_first:
  assumes "apiKey = None \<or> apiKey = Some []"
  shows "snd (POST stringify anthropic apiKey request) = [] \<and>
    (\<exists>obj. body (fst (POST stringify anthropic apiKey request)) = JsonBody obj) \<and>
    ((\<forall>e. request \<noteq> Unreadable e) \<longrightarrow>
       fst (POST stringify anthropic apiKey request) =
         jsonResponse 500
           (JObj [(js ''error'', JStr (js ''Missing API key: Please set ANTHROPIC_API_KEY in your environment variables or .env file.'')),
                  (js ''details'', JStr (js ''Error''))]) \<and>
       startsWith (js ''Missing API key: Please set ANTHROPIC_API_KEY in your environment variables or .env file.'')
         (js ''Missing API key:'')) \<and>
    (\<forall>e. request = Unreadable e \<longrightarrow>
       fst (POST stringify anthropic apiKey request) = errorResponse e) \<and>
    (\<forall>n m. request = Unreadable (Error n m) \<and>
       \<not> includes_str m (js ''rate limit'') \<and>
       \<not> (includes_str m (js ''Connection error'') \<or> n = js ''APIConnectionError'') \<and>
       \<not> includes_str m (js ''authentication'') \<longrightarrow>
       fst (POST stringify anthropic apiKey request) =
         jsonResponse 500 (JObj [(js ''error'', JStr m), (js ''details'', JStr n)]))"
proof -
  have sw: "startsWith (js ''Missing API key: Please set ANTHROPIC_API_KEY in your environment variables or .env file.'')
         (js ''Missing API key:'')"
    by (simp add: startsWith_def js_def)
  have m: "message missingKey = js ''Missing API key: Please set ANTHROPIC_API_KEY in your environment variables or .env file.''"
    by (simp add: missingKey_def)
  show ?thesis
  proof (cases request)
    case (Unreadable e)
    have p: "POST stringify anthropic apiKey (Unreadable x) = (errorResponse x, [])" for x
      using assms by (simp add: POST_def POST_try_no_key)
    have j: "\<exists>obj. body (errorResponse e) = JsonBody obj"
      by (simp add: errorResponse_def jsonResponse_def split: prod.splits)
    have o: "errorResponse (Error n m) =
        jsonResponse 500 (JObj [(js ''error'', JStr m), (js ''details'', JStr n)])"
      if "\<not> includes_str m (js ''rate limit'')"
        and "\<not> (includes_str m (js ''Connection error'') \<or> n = js ''APIConnectionError'')"
        and "\<not> includes_str m (js ''authentication'')" for n m
      using that by (simp add: errorResponse_def classify_def)
    show ?thesis
      using j o by (auto simp add: Unreadable p)
  next
    case (Malformed e)
    then show ?thesis
      using assms sw
      by (simp add: POST_def POST_try_no_key errorResponse_missingKey m) (simp add: jsonResponse_def)
  next
    case (Messages ms)
    then show ?thesis
      using assms sw
      by (simp add: POST_def POST_try_no_key errorResponse_missingKey m) (simp add: jsonResponse_def)
  qed
qed

text \<open>
  Two instances with no key: a well-formed request with one message, and a request with
  an empty body.
\<close>

theorem missing_key_fails_first_witness:
  "POST stringifyChunk (\<lambda>ms. Opened [] None) None
     (Messages [\<lparr>msg_id = js ''1'', role = user, content = js ''Hello''\<rparr>]) =
     (jsonResponse 500
        (JObj [(js ''error'', JStr (js ''Missing API key: Please set ANTHROPIC_API_KEY in your environment variables or .env file.'')),
               (js ''details'', JStr (js ''Error''))]), []) \<and>
   POST stringifyChunk (\<lambda>ms. Opened [] None) None
     (Unreadable (Error (js ''SyntaxError'') (js ''Unexpected end of JSON input''))) =
     (jsonResponse 500
        (JObj [(js ''error'', JStr (js ''Unexpected end of JSON input'')),
               (js ''details'', JStr (js ''SyntaxError''))]), [])"
proof -
  have c: "\<not> includes_str (js ''Unexpected end of JSON input'') (js ''rate limit'')"
    "\<not> includes_str (js ''Unexpected end of JSON input'') (js ''Connection error'')"
    "\<not> includes_str (js ''Unexpected end of JSON input'') (js ''authentication'')"
    "js ''SyntaxError'' \<noteq> js ''APIConnectionError''"
    by (simp_all add: js_def startsWith_def)
  show ?thesis
    using missing_key_fails_first [where apiKey = None and stringify = stringifyChunk
        and anthropic = "\<lambda>ms. Opened [] None"
        and request = "Messages [\<lparr>msg_id = js ''1'', role = user, content = js ''Hello''\<rparr>]"]
      missing_key_fails_first [where apiKey = None and stringify = stringifyChunk
        and anthropic = "\<lambda>ms. Opened [] None"
        and request = "Unreadable (Error (js ''SyntaxError'') (js ''Unexpected end of JSON input''))"]
      c
    by (simp add: prod_eq_iff errorResponse_def classify_def)
qed

subsection \<open>The streamed body\<close>


section \<open>Properties of the client\<close>

subsection \<open>Splitting at newlines\<close>

lemma split_nl_not_Nil: "split_nl s \<noteq> []"
  by (induction s) (auto split: list.splits)

lemma split_nl_no_newline: "nl \<notin> set r \<Longrightarrow> split_nl r = [r]"
  by (induction r) auto

lemma split_nl_line: "nl \<notin> set l \<Longrightarrow> split_nl (l @ nl # rest) = l # split_nl rest"
  by (induction l) auto

lemma split_nl_lines:
  "\<forall>l\<in>set ls. nl \<notin> set l \<Longrightarrow> nl \<notin> set r \<Longrightarrow>
     split_nl (concat (map (\<lambda>l. l @ [nl]) ls) @ r) = ls @ [r]"
  by (induction ls) (simp_all add: split_nl_no_newline split_nl_line)

lemma split_nl_free: "l \<in> set (split_nl s) \<Longrightarrow> nl \<notin> set l"
proof (induction s arbitrary: l)
  case Nil
  then show ?case by simp
next
  case (Cons c cs)
  show ?case
  proof (cases "c = nl")
    case True
    with Cons show ?thesis by auto
  next
    case False
    obtain x xs where sp: "split_nl cs = x # xs"
      using split_nl_not_Nil [of cs] by (cases "split_nl cs") auto
    with Cons False show ?thesis by auto
  qed
qed

lemma split_nl_append:
  "split_nl (a @ b) = butlast (split_nl a) @ split_nl (last (split_nl a) @ b)"
proof (induction a)
  case Nil
  then show ?case by simp
next
  case (Cons c cs)
  obtain x xs where sp: "split_nl cs = x # xs"
    using split_nl_not_Nil [of cs] by (cases "split_nl cs") auto
  show ?case
  proof (cases "c = nl")
    case True
    with Cons sp show ?thesis by simp
  next
    case False
    show ?thesis
    proof (cases xs)
      case Nil
      with Cons sp False show ?thesis by simp
    next
      case (Cons y ys)
      with Cons.IH sp False show ?thesis by simp
    qed
  qed
qed

subsection \<open>The read loop sees the stream as a whole\<close>

lemma processLine_buffer_commute:
  "processLine parse toStr (t\<lparr>buffer := b\<rparr>, c) line =
     (case processLine parse toStr (t, c) line of (t', c') \<Rightarrow> (t'\<lparr>buffer := b\<rparr>, c'))"
  by (simp add: processLine_def Let_def split: sum.splits json.splits)

lemma foldl_processLine_buffer_commute:
  "foldl (processLine parse toStr) (t\<lparr>buffer := b\<rparr>, c) ls =
     (case foldl (processLine parse toStr) (t, c) ls of (t', c') \<Rightarrow> (t'\<lparr>buffer := b\<rparr>, c'))"
proof (induction ls arbitrary: t c)
  case Nil
  then show ?case by simp
next
  case (Cons l ls)
  obtain t1 c1 where p: "processLine parse toStr (t, c) l = (t1, c1)"
    by (cases "processLine parse toStr (t, c) l")
  show ?case
    by (simp add: processLine_buffer_commute p Cons.IH)
qed

lemma processLine_buffer:
  "buffer (fst (processLine parse toStr (t, c) line)) = buffer t"
  by (simp add: processLine_def Let_def split: sum.splits json.splits)

lemma foldl_processLine_buffer:
  "buffer (fst (foldl (processLine parse toStr) (t, c) ls)) = buffer t"
proof (induction ls arbitrary: t c)
  case Nil
  then show ?case by simp
next
  case (Cons l ls)
  obtain t1 c1 where p: "processLine parse toStr (t, c) l = (t1, c1)"
    by (cases "processLine parse toStr (t, c) l")
  have "buffer t1 = buffer t"
    using processLine_buffer [of parse toStr t c l] p by simp
  then show ?case
    by (simp add: p Cons.IH)
qed

lemma processChunk_eq:
  "processChunk parse toStr (t, c) text =
     foldl (processLine parse toStr) (t\<lparr>buffer := last (split_nl (buffer t @ text))\<rparr>, c)
       (butlast (split_nl (buffer t @ text)))"
  by (simp add: processChunk_def Let_def split_nl_not_Nil)

lemma readLoop_whole:
  "nl \<notin> set (buffer t) \<Longrightarrow>
   readLoop parse toStr (t, c) chunks =
     foldl (processLine parse toStr)
       (t\<lparr>buffer := last (split_nl (buffer t @ concat chunks))\<rparr>, c)
       (butlast (split_nl (buffer t @ concat chunks)))"
proof (induction chunks arbitrary: t c)
  case Nil
  then show ?case by (simp add: readLoop_def split_nl_no_newline)
next
  case (Cons ch chs)
  let ?L1 = "split_nl (buffer t @ ch)"
  obtain t1 c1 where pc: "processChunk parse toStr (t, c) ch = (t1, c1)"
    by (cases "processChunk parse toStr (t, c) ch")
  obtain t0 c0 where f0: "foldl (processLine parse toStr) (t, c) (butlast ?L1) = (t0, c0)"
    by (cases "foldl (processLine parse toStr) (t, c) (butlast ?L1)")
  have t1: "t1 = t0\<lparr>buffer := last ?L1\<rparr>" and c1: "c1 = c0"
    using pc f0 by (simp_all add: processChunk_eq foldl_processLine_buffer_commute)
  have "last ?L1 \<in> set ?L1"
    by (simp add: split_nl_not_Nil)
  then have free: "nl \<notin> set (buffer t1)"
    using t1 split_nl_free by simp
  have b1: "buffer t1 = last ?L1"
    using t1 by simp
  have sp: "split_nl (buffer t @ concat (ch # chs)) = butlast ?L1 @ split_nl (last ?L1 @ concat chs)"
    using split_nl_append [of "buffer t @ ch" "concat chs"] by simp
  let ?L2 = "split_nl (last ?L1 @ concat chs)"
  have bl: "butlast (butlast ?L1 @ ?L2) = butlast ?L1 @ butlast ?L2"
    and la: "last (butlast ?L1 @ ?L2) = last ?L2"
    by (simp_all add: butlast_append split_nl_not_Nil)
  have e1: "readLoop parse toStr (t, c) (ch # chs) =
      foldl (processLine parse toStr) (t1\<lparr>buffer := last ?L2\<rparr>, c1) (butlast ?L2)"
    using Cons.IH [OF free, of c1] b1 by (simp add: readLoop_def pc)
  have e2: "foldl (processLine parse toStr) (t\<lparr>buffer := last ?L2\<rparr>, c) (butlast ?L1) =
      (t1\<lparr>buffer := last ?L2\<rparr>, c1)"
    by (simp add: foldl_processLine_buffer_commute f0 t1 c1)
  have "foldl (processLine parse toStr)
          (t\<lparr>buffer := last (butlast ?L1 @ ?L2)\<rparr>, c) (butlast (butlast ?L1 @ ?L2)) =
        foldl (processLine parse toStr) (t\<lparr>buffer := last ?L2\<rparr>, c) (butlast ?L1 @ butlast ?L2)"
    by (simp only: bl la)
  also have "\<dots> = foldl (processLine parse toStr) (t1\<lparr>buffer := last ?L2\<rparr>, c1) (butlast ?L2)"
    by (simp only: foldl_append e2)
  finally show ?case
    by (simp only: e1 sp)
qed

lemma processLine_parsed:
  "parsed (fst (processLine parse toStr (t, c) line)) =
     parsed t @ (if trim line = [] then [] else [line])"
  by (simp add: processLine_def Let_def split: sum.splits json.splits)

lemma foldl_processLine_parsed:
  "parsed (fst (foldl (processLine parse toStr) (t, c) ls)) =
     parsed t @ filter (\<lambda>l. trim l \<noteq> []) ls"
proof (induction ls arbitrary: t c)
  case Nil
  then show ?case by simp
next
  case (Cons l ls)
  obtain t1 c1 where p: "processLine parse toStr (t, c) l = (t1, c1)"
    by (cases "processLine parse toStr (t, c) l")
  have "parsed t1 = parsed t @ (if trim l = [] then [] else [l])"
    using processLine_parsed [of parse toStr t c l] p by simp
  then show ?case
    by (simp add: p Cons.IH)
qed

subsection \<open>Lines written by the relay\<close>

lemma get_type_chunk: "get (chunk text) (js ''type'') = Some (JStr (js ''content_block_delta''))"
  by (simp add: get_def chunk_def js_def)

lemma delta_text_of_chunk: "delta_text_of (chunk text) = Some (JStr text)"
  by (simp add: delta_text_of_def get_def chunk_def js_def)

lemma processLine_chunk:
  assumes "parse line = Inr (chunk text)" and "trim line \<noteq> []"
  shows "processLine parse toStr (t, c) line =
    (if text = [] then (t\<lparr>parsed := parsed t @ [line]\<rparr>, c)
     else (t\<lparr>parsed := parsed t @ [line],
              newMessage := (newMessage t)\<lparr>content := content (newMessage t) @ text\<rparr>\<rparr>,
           c\<lparr>pendingMessage := Some ((newMessage t)\<lparr>content := content (newMessage t) @ text\<rparr>)\<rparr>))"
proof -
  obtain props where c: "chunk text = JObj props"
    by (simp add: chunk_def)
  have p: "parse line = Inr (JObj props)"
    using assms(1) c by simp
  have g: "get (JObj props) (js ''type'') = Some (JStr (js ''content_block_delta''))"
    using get_type_chunk [of "text"] c by simp
  have d: "delta_text_of (JObj props) = Some (JStr text)"
    using delta_text_of_chunk [of "text"] c by simp
  show ?thesis
    using assms(2) by (simp add: processLine_def Let_def p g d truthy_def plus_text_def)
qed

lemma foldl_processLine_chunks:
  assumes "\<forall>x\<in>set texts. parse (stringify (chunk x)) = Inr (chunk x) \<and> trim (stringify (chunk x)) \<noteq> []"
  shows "foldl (processLine parse toStr) (t, c) (map (\<lambda>x. stringify (chunk x)) texts) =
    (t\<lparr>parsed := parsed t @ map (\<lambda>x. stringify (chunk x)) texts,
       newMessage := (newMessage t)\<lparr>content := content (newMessage t) @ concat texts\<rparr>\<rparr>,
     if concat texts = [] then c
     else c\<lparr>pendingMessage := Some ((newMessage t)\<lparr>content := content (newMessage t) @ concat texts\<rparr>)\<rparr>)"
  using assms
proof (induction texts arbitrary: t c)
  case Nil
  then show ?case by simp
next
  case (Cons x xs)
  have px: "parse (stringify (chunk x)) = Inr (chunk x)" and tx: "trim (stringify (chunk x)) \<noteq> []"
    using Cons.prems by simp_all
  have rest: "\<forall>x\<in>set xs. parse (stringify (chunk x)) = Inr (chunk x) \<and> trim (stringify (chunk x)) \<noteq> []"
    using Cons.prems by simp
  show ?case
    by (simp add: processLine_chunk [of parse "stringify (chunk x)" x, OF px tx] Cons.IH [OF rest])
qed

lemma readLoop_relay_lines:
  assumes codec: "\<forall>e\<in>set events.
      ev_type e = js ''content_block_delta'' \<and> delta_type e = js ''text_delta'' \<longrightarrow>
      parse (stringify (chunk (delta_text e))) = Inr (chunk (delta_text e)) \<and>
      nl \<notin> set (stringify (chunk (delta_text e))) \<and>
      trim (stringify (chunk (delta_text e))) \<noteq> []"
    and wire: "concat chunks = concat (transformedStream stringify events)"
  shows "content (newMessage (fst (readLoop parse toStr (newTurn now, c) chunks))) =
      concat (map delta_text
        (filter (\<lambda>e. ev_type e = js ''content_block_delta'' \<and> delta_type e = js ''text_delta'')
           events)) \<and>
    pendingMessage (snd (readLoop parse toStr (newTurn now, c) chunks)) =
      (if concat (map delta_text
            (filter (\<lambda>e. ev_type e = js ''content_block_delta'' \<and> delta_type e = js ''text_delta'')
               events)) = []
       then pendingMessage c
       else Some \<lparr> msg_id = decimal (now + 1), role = assistant,
                   content = concat (map delta_text
                     (filter (\<lambda>e. ev_type e = js ''content_block_delta'' \<and>
                                    delta_type e = js ''text_delta'') events)) \<rparr>)"
proof -
  let ?texts = "map delta_text
      (filter (\<lambda>e. ev_type e = js ''content_block_delta'' \<and> delta_type e = js ''text_delta'') events)"
  let ?ls = "map (\<lambda>x. stringify (chunk x)) ?texts"
  have ok: "\<forall>x\<in>set ?texts. parse (stringify (chunk x)) = Inr (chunk x) \<and> trim (stringify (chunk x)) \<noteq> []"
    using codec by auto
  have free: "\<forall>l\<in>set ?ls. nl \<notin> set l"
    using codec by auto
  have "concat chunks = concat (map (\<lambda>l. l @ [nl]) ?ls) @ []"
    by (simp add: wire transformedStream_map_filter comp_def)
  then have sp: "split_nl (concat chunks) = ?ls @ [[]]"
    using split_nl_lines [OF free, of "[]"] by simp
  have b: "buffer (newTurn now) = []" and nb: "(newTurn now)\<lparr>buffer := []\<rparr> = newTurn now"
    by (simp_all add: newTurn_def)
  have "readLoop parse toStr (newTurn now, c) chunks =
      foldl (processLine parse toStr)
        ((newTurn now)\<lparr>buffer := last (split_nl (concat chunks))\<rparr>, c)
        (butlast (split_nl (concat chunks)))"
    using readLoop_whole [of "newTurn now" parse toStr c chunks] b by simp
  then have rl: "readLoop parse toStr (newTurn now, c) chunks =
      foldl (processLine parse toStr) (newTurn now, c) ?ls"
    by (simp only: sp butlast_snoc last_snoc nb)
  have nm: "newMessage (newTurn now) = \<lparr> msg_id = decimal (now + 1), role = assistant, content = [] \<rparr>"
    by (simp add: newTurn_def)
  show ?thesis
    by (simp only: rl foldl_processLine_chunks [OF ok]) (auto simp add: nm)
qed

subsection \<open>Reassembly of lines\<close>

text \<open>
  Claim C2, amended. However the text of the response is cut into reads, when the stream
  ends the arguments of the calls to \<open>JSON.parse\<close> are, in order and each once, the
  newline-terminated lines of the whole text that are not blank; a line cut by a read is
  parsed whole. Blank lines are skipped, and the text after the last newline stays in
  the buffer and is never parsed.
\<close>

theorem lines_parsed_once:
  assumes "concat chunks = concat (map (\<lambda>l. l @ [nl]) ls) @ r"
    and "\<forall>l\<in>set ls. nl \<notin> set l" and "nl \<notin> set r"
  shows "parsed (fst (readLoop parse toStr (newTurn now, c) chunks)) = filter (\<lambda>l. trim l \<noteq> []) ls
    \<and> buffer (fst (readLoop parse toStr (newTurn now, c) chunks)) = r"
proof -
  have b: "buffer (newTurn now) = []" and p: "parsed (newTurn now) = []"
    by (simp_all add: newTurn_def)
  have sp: "split_nl (concat chunks) = ls @ [r]"
    using assms by (simp add: split_nl_lines)
  have "readLoop parse toStr (newTurn now, c) chunks =
      foldl (processLine parse toStr) ((newTurn now)\<lparr>buffer := r\<rparr>, c) ls"
    using readLoop_whole [of "newTurn now" parse toStr c chunks] by (simp add: b sp)
  then show ?thesis
    by (simp add: foldl_processLine_parsed foldl_processLine_buffer p)
qed

subsection \<open>Reconstruction of the assistant's text\<close>

text \<open>
  Claim C1. For every sequence of upstream events relayed as newline-terminated JSON
  lines, and every way the resulting text reaches the client in reads, the content of the
  message under construction after the loop is the concatenation of the texts of the
  text-delta events in arrival order, and the pending message published last carries
  that content (none is published when it is empty). The platform's \<open>JSON.stringify\<close>
  and \<open>JSON.parse\<close> are parameters: for the chunks of these events, parsing inverts
  stringifying, and a stringified chunk has no raw newline and is not blank.
\<close>

theorem pending_content_concatenates:
  assumes codec: "\<forall>e\<in>set events.
      ev_type e = js ''content_block_delta'' \<and> delta_type e = js ''text_delta'' \<longrightarrow>
      parse (stringify (chunk (delta_text e))) = Inr (chunk (delta_text e)) \<and>
      nl \<notin> set (stringify (chunk (delta_text e))) \<and>
      trim (stringify (chunk (delta_text e))) \<noteq> []"
    and wire: "concat chunks = concat (transformedStream stringify events)"
  shows "content (newMessage (fst (readLoop parse toStr (newTurn now, c) chunks))) =
      concat (map delta_text
        (filter (\<lambda>e. ev_type e = js ''content_block_delta'' \<and> delta_type e = js ''text_delta'')
           events)) \<and>
    pendingMessage (snd (readLoop parse toStr (newTurn now, c) chunks)) =
      (if concat (map delta_text
            (filter (\<lambda>e. ev_type e = js ''content_block_delta'' \<and> delta_type e = js ''text_delta'')
               events)) = []
       then pendingMessage c
       else Some \<lparr> msg_id = decimal (now + 1), role = assistant,
                   content = concat (map delta_text
                     (filter (\<lambda>e. ev_type e = js ''content_block_delta'' \<and>
                                    delta_type e = js ''text_delta'') events)) \<rparr>)"
  using codec wire by (rule readLoop_relay_lines)

subsection \<open>The codec of the examples\<close>

lemma trim_Nil: "trim [] = []"
  by (simp add: trim_def)

lemma trim_eq_Nil: "trim s = [] \<longleftrightarrow> (\<forall>x\<in>set s. isWhiteSpace x)"
proof
  assume "trim s = []"
  then have "dropWhile isWhiteSpace (rev (dropWhile isWhiteSpace s)) = []"
    by (simp add: trim_def)
  then have "\<forall>x\<in>set (dropWhile isWhiteSpace s). isWhiteSpace x"
    by (simp add: dropWhile_eq_Nil_conv)
  then have "dropWhile isWhiteSpace s = []"
    by (metis hd_dropWhile hd_in_set)
  then show "\<forall>x\<in>set s. isWhiteSpace x"
    by (simp add: dropWhile_eq_Nil_conv)
next
  assume "\<forall>x\<in>set s. isWhiteSpace x"
  then have d: "dropWhile isWhiteSpace s = []"
    by (simp add: dropWhile_eq_Nil_conv)
  show "trim s = []"
    unfolding trim_def d by simp
qed

lemma unquote_quoteUnit:
  "unquote (quoteUnit c @ rest) = map_option ((#) c) (unquote rest)"
  by (cases rest) (simp_all add: quoteUnit_def unescape_def)

lemma unquote_quote: "unquote (concat (map quoteUnit s)) = Some s"
  by (induction s) (simp_all add: unquote_quoteUnit)

lemma parseChunk_stringifyChunk: "parseChunk (stringifyChunk (chunk s)) = Inr (chunk s)"
proof -
  let ?q = "concat (map quoteUnit s)"
  have line: "stringifyChunk (chunk s) = (linePrefix @ [0x22]) @ ?q @ [0x22, 0x7D, 0x7D]"
    by (simp add: stringifyChunk_def delta_text_of_chunk quoteJSON_def js_def)
  have len: "length (stringifyChunk (chunk s)) = length linePrefix + 1 + length ?q + 3"
    by (simp add: line)
  have "take (length linePrefix + 1) (stringifyChunk (chunk s)) = linePrefix @ [0x22]"
    by (simp add: line)
  moreover have "drop (length (stringifyChunk (chunk s)) - 3) (stringifyChunk (chunk s)) = 0x22 # js ''}}''"
    by (simp add: len) (simp add: line js_def)
  moreover have "take (length (stringifyChunk (chunk s)) - 3 - (length linePrefix + 1))
      (drop (length linePrefix + 1) (stringifyChunk (chunk s))) = ?q"
    by (simp add: len) (simp add: line)
  ultimately show ?thesis
    by (simp add: parseChunk_def Let_def len unquote_quote)
qed

lemma quoteUnit_no_newline: "nl \<notin> set (quoteUnit c)"
  by (simp add: quoteUnit_def nl_def)

lemma stringifyChunk_no_newline: "nl \<notin> set (stringifyChunk v)"
proof -
  have "nl \<notin> set linePrefix"
    by (simp add: linePrefix_def quoted_def js_def nl_def)
  moreover have "nl \<notin> set (quoteJSON s)" for s
    by (simp add: quoteJSON_def quoteUnit_no_newline) (simp add: nl_def)
  moreover have "nl \<notin> set (js ''}}'')" and "nl \<notin> set (js ''null'')"
    by (simp_all add: js_def nl_def)
  ultimately show ?thesis
    by (simp add: stringifyChunk_def split: option.splits json.splits)
qed

lemma stringifyChunk_not_blank: "trim (stringifyChunk v) \<noteq> []"
proof -
  have "\<not> isWhiteSpace 0x7B" and "\<not> isWhiteSpace 0x6E"
    by (simp_all add: isWhiteSpace_def)
  moreover have "0x7B \<in> set linePrefix" and "0x6E \<in> set (js ''null'')"
    by (simp_all add: linePrefix_def js_def)
  ultimately have "\<exists>x\<in>set (stringifyChunk v). \<not> isWhiteSpace x"
    by (auto simp add: stringifyChunk_def split: option.splits json.splits)
  then show ?thesis
    by (simp add: trim_eq_Nil)
qed

lemma example_codec:
  "\<forall>e\<in>set events.
      ev_type e = js ''content_block_delta'' \<and> delta_type e = js ''text_delta'' \<longrightarrow>
      parseChunk (stringifyChunk (chunk (delta_text e))) = Inr (chunk (delta_text e)) \<and>
      nl \<notin> set (stringifyChunk (chunk (delta_text e))) \<and>
      trim (stringifyChunk (chunk (delta_text e))) \<noteq> []"
  by (simp add: parseChunk_stringifyChunk stringifyChunk_no_newline stringifyChunk_not_blank)

lemma example_texts:
  "concat (map delta_text
     (filter (\<lambda>e. ev_type e = js ''content_block_delta'' \<and> delta_type e = js ''text_delta'')
        exampleEvents)) = js ''Hi there!''"
  by (simp add: exampleEvents_def textDelta_def js_def)

lemma submitGuard_typedHello: "submitGuard typedHello"
  by (simp add: submitGuard_def typedHello_def trim_def isWhiteSpace_def js_def)

lemma userMessage_typedHello:
  "userMessage now typedHello = \<lparr> msg_id = decimal now, role = user, content = js ''Hello'' \<rparr>"
  by (simp add: userMessage_def typedHello_def trim_def isWhiteSpace_def js_def)

subsection \<open>Instances of the two results on the stream\<close>

text \<open>
  The relay's lines for the scenario, cut after forty code units, in the middle of the
  first line: the client rebuilds \<open>Hi there!\<close>.
\<close>

theorem pending_content_concatenates_witness:
  "content (newMessage (fst (readLoop parseChunk (\<lambda>v. []) (newTurn 1000, typedHello)
      [take 40 (concat (transformedStream stringifyChunk exampleEvents)),
       drop 40 (concat (transformedStream stringifyChunk exampleEvents))]))) = js ''Hi there!'' \<and>
   pendingMessage (snd (readLoop parseChunk (\<lambda>v. []) (newTurn 1000, typedHello)
      [take 40 (concat (transformedStream stringifyChunk exampleEvents)),
       drop 40 (concat (transformedStream stringifyChunk exampleEvents))])) =
     Some \<lparr> msg_id = decimal (1000 + 1), role = assistant, content = js ''Hi there!'' \<rparr>"
proof -
  let ?w = "concat (transformedStream stringifyChunk exampleEvents)"
  have wire: "concat [take 40 ?w, drop 40 ?w] = ?w"
    by simp
  have ne: "js ''Hi there!'' \<noteq> []"
    by (simp add: js_def)
  show ?thesis
    using pending_content_concatenates
      [where parse = parseChunk and stringify = stringifyChunk and events = exampleEvents
        and chunks = "[take 40 ?w, drop 40 ?w]" and toStr = "\<lambda>v. []" and now = 1000
        and c = typedHello, OF example_codec wire]
    by (simp only: example_texts ne if_False)
qed

text \<open>
  A line cut in two by a read, a blank line, a second line, and a fragment with no
  newline at the end of the stream: the two lines are parsed, once each.
\<close>

theorem lines_parsed_once_witness:
  "parsed (fst (readLoop parseChunk (\<lambda>v. []) (newTurn 1000, typedHello)
      [take 10 (stringifyChunk (chunk (js ''Hi''))),
       drop 10 (stringifyChunk (chunk (js ''Hi''))) @ [nl] @ [nl] @
         stringifyChunk (chunk (js ''!'')) @ [nl] @ take 20 (stringifyChunk (chunk (js ''lost'')))])) =
     [stringifyChunk (chunk (js ''Hi'')), stringifyChunk (chunk (js ''!''))] \<and>
   buffer (fst (readLoop parseChunk (\<lambda>v. []) (newTurn 1000, typedHello)
      [take 10 (stringifyChunk (chunk (js ''Hi''))),
       drop 10 (stringifyChunk (chunk (js ''Hi''))) @ [nl] @ [nl] @
         stringifyChunk (chunk (js ''!'')) @ [nl] @ take 20 (stringifyChunk (chunk (js ''lost'')))])) =
     take 20 (stringifyChunk (chunk (js ''lost'')))"
proof -
  let ?l1 = "stringifyChunk (chunk (js ''Hi''))" and ?l3 = "stringifyChunk (chunk (js ''!''))"
  let ?r = "take 20 (stringifyChunk (chunk (js ''lost'')))"
  have cat: "concat [take 10 ?l1, drop 10 ?l1 @ [nl] @ [nl] @ ?l3 @ [nl] @ ?r] =
      concat (map (\<lambda>l. l @ [nl]) [?l1, [], ?l3]) @ ?r"
    by simp
  have free: "\<forall>l\<in>set [?l1, [], ?l3]. nl \<notin> set l"
    by (simp add: stringifyChunk_no_newline)
  have rfree: "nl \<notin> set ?r"
    using stringifyChunk_no_newline [of "chunk (js ''lost'')"] by (meson in_set_takeD)
  show ?thesis
    using lines_parsed_once [OF cat free rfree, of parseChunk "\<lambda>v. []" 1000 typedHello]
    by (simp add: stringifyChunk_not_blank trim_Nil)
qed

text \<open>
  Claim C2, as stated, fails for a blank line: the stream that is a single newline holds
  one complete line, the empty one, and the guard \<open>if (line.trim())\<close> keeps it from the
  parser.
\<close>

theorem blank_line_not_parsed_counterexample:
  "concat [[nl]] = concat (map (\<lambda>l. l @ [nl]) [[]]) @ [] \<and>
   parsed (fst (readLoop parseChunk (\<lambda>v. []) (newTurn 1000, typedHello) [[nl]])) = [] \<and>
   buffer (fst (readLoop parseChunk (\<lambda>v. []) (newTurn 1000, typedHello) [[nl]])) = []"
  by (simp add: readLoop_def processChunk_def processLine_def trim_def newTurn_def)

subsection \<open>The end of the stream\<close>

lemma untouched_refl: "untouched tc tc"
  by (simp add: untouched_def)

lemma untouched_trans: "untouched a b \<Longrightarrow> untouched b d \<Longrightarrow> untouched a d"
  by (simp add: untouched_def)

lemma processLine_untouched: "untouched tc (processLine parse toStr tc line)"
  by (cases tc) (simp add: untouched_def processLine_def Let_def split: sum.splits json.splits)

lemma foldl_processLine_untouched: "untouched tc (foldl (processLine parse toStr) tc ls)"
proof (induction ls arbitrary: tc)
  case Nil
  then show ?case by (simp add: untouched_refl)
next
  case (Cons l ls)
  show ?case
    using untouched_trans [OF processLine_untouched Cons.IH] by simp
qed

lemma processChunk_untouched: "untouched tc (processChunk parse toStr tc chunk_text)"
proof (cases tc)
  case (Pair t c)
  have "untouched (t, c) (t\<lparr>buffer := last (split_nl (buffer t @ chunk_text))\<rparr>, c)"
    by (simp add: untouched_def)
  then show ?thesis
    using Pair untouched_trans [OF _ foldl_processLine_untouched]
    by (simp add: processChunk_eq)
qed

lemma readLoop_untouched: "untouched tc (readLoop parse toStr tc chunks)"
proof (induction chunks arbitrary: tc)
  case Nil
  then show ?case by (simp add: readLoop_def untouched_refl)
next
  case (Cons ch chs)
  show ?case
    using untouched_trans [OF processChunk_untouched Cons.IH [unfolded readLoop_def]]
    by (simp add: readLoop_def)
qed

text \<open>
  Claim C5. At the end of the stream the pending message is cleared, and the message
  under construction is appended to the history if and only if its content, trimmed, is
  not empty; otherwise the history is left as it is. For a whole run of \<open>handleSubmit\<close>
  whose stream ends: the pending message is cleared, and the history grows by the user
  message and, only when the accumulated content is not blank, by the assistant message.
\<close>

theorem stream_end_commits_nonblank:
  "pendingMessage (streamEnd t c) = None \<and>
   messages (streamEnd t c) =
     messages c @ (if trim (content (newMessage t)) = [] then [] else [newMessage t]) \<and>
   (submitGuard c \<longrightarrow>
      pendingMessage
        (handleSubmit parse toStr now0 now1 now2 (Fetched True (Some (chunks, Done))) c) = None \<and>
      messages
        (handleSubmit parse toStr now0 now1 now2 (Fetched True (Some (chunks, Done))) c) =
        messages c @ [userMessage now0 c] @
        (if trim (content (newMessage (fst (readLoop parse toStr
                     (newTurn now1, beginSubmit now0 c) chunks)))) = []
         then []
         else [\<lparr> msg_id = decimal (now1 + 1), role = assistant,
                  content = content (newMessage (fst (readLoop parse toStr
                     (newTurn now1, beginSubmit now0 c) chunks))) \<rparr>]))"
proof -
  obtain t2 c2 where rl: "readLoop parse toStr (newTurn now1, beginSubmit now0 c) chunks = (t2, c2)"
    by (cases "readLoop parse toStr (newTurn now1, beginSubmit now0 c) chunks")
  have u: "untouched (newTurn now1, beginSubmit now0 c) (t2, c2)"
    using readLoop_untouched [of "(newTurn now1, beginSubmit now0 c)" parse toStr chunks] rl by simp
  have m2: "messages c2 = messages c @ [userMessage now0 c]"
    using u by (simp add: untouched_def beginSubmit_def)
  have n2: "newMessage t2 = \<lparr> msg_id = decimal (now1 + 1), role = assistant, content = content (newMessage t2) \<rparr>"
    using u by (simp add: untouched_def newTurn_def)
  have se: "pendingMessage (streamEnd t c) = None \<and>
   messages (streamEnd t c) =
     messages c @ (if trim (content (newMessage t)) = [] then [] else [newMessage t])" for t c
    by (simp add: streamEnd_def Let_def)
  show ?thesis
    using n2 by (simp add: se handleSubmit_def Let_def rl finallyBlock_def m2)
qed

text \<open>
  The scenario of the specification, from an empty history: the final history is the
  user's \<open>Hello\<close> and the assistant's \<open>Hi there!\<close>.
\<close>

theorem stream_end_commits_nonblank_witness:
  "submitGuard typedHello \<and>
   messages (handleSubmit parseChunk (\<lambda>v. []) 1000 1001 1002
      (Fetched True (Some (transformedStream stringifyChunk exampleEvents, Done))) typedHello) =
     [\<lparr> msg_id = decimal 1000, role = user, content = js ''Hello'' \<rparr>,
      \<lparr> msg_id = decimal (1001 + 1), role = assistant, content = js ''Hi there!'' \<rparr>] \<and>
   pendingMessage (handleSubmit parseChunk (\<lambda>v. []) 1000 1001 1002
      (Fetched True (Some (transformedStream stringifyChunk exampleEvents, Done))) typedHello) = None"
proof -
  have acc: "content (newMessage (fst (readLoop parseChunk (\<lambda>v. [])
      (newTurn 1001, beginSubmit 1000 typedHello) (transformedStream stringifyChunk exampleEvents)))) =
      js ''Hi there!''"
    using readLoop_relay_lines
      [where parse = parseChunk and stringify = stringifyChunk and events = exampleEvents
        and chunks = "transformedStream stringifyChunk exampleEvents" and toStr = "\<lambda>v. []"
        and now = 1001 and c = "beginSubmit 1000 typedHello", OF example_codec refl]
    by (simp only: example_texts)
  have nb: "trim (js ''Hi there!'') \<noteq> []"
    by (simp add: trim_def isWhiteSpace_def js_def)
  have m: "messages typedHello = []"
    by (simp add: typedHello_def)
  show ?thesis
    using stream_end_commits_nonblank
      [of "newTurn 0" typedHello parseChunk "\<lambda>v. []" 1000 1001 1002
        "transformedStream stringifyChunk exampleEvents"]
      submitGuard_typedHello
    by (simp only: acc nb if_False userMessage_typedHello m) simp
qed

subsection \<open>An uninterrupted run is a run of the page\<close>

text \<open>
  \<open>handleSubmit\<close>, as one function of the outcome of the fetch, is what the transition
  system does on the events of that run, from a page that has just rendered.
\<close>

lemma submitFrom_same: "submitFrom now c c = beginSubmit now c"
  by (simp add: submitFrom_def beginSubmit_def)

lemma foldl_step_idle:
  "flights s = [] \<Longrightarrow> \<forall>e\<in>set es. \<forall>now. e \<noteq> Submit now \<Longrightarrow> \<forall>e\<in>set es. \<forall>v. e \<noteq> Change v \<Longrightarrow>
   \<forall>e\<in>set es. e \<noteq> Render \<Longrightarrow> foldl (step parse toStr) s es = s"
proof (induction es arbitrary: s)
  case Nil
  then show ?case by simp
next
  case (Cons e es)
  have "step parse toStr s e = s"
    using Cons.prems by (cases e) (simp_all add: step_def)
  then show ?case
    using Cons by simp
qed

lemma foldl_step_reads:
  "readLoop parse toStr (t, c) chunks = (t', c') \<Longrightarrow>
   foldl (step parse toStr) \<lparr> ui = c, rendered = r, flights = [Reading t] \<rparr> (map (Read 0) chunks) =
     \<lparr> ui = c', rendered = r, flights = [Reading t'] \<rparr>"
proof (induction chunks arbitrary: t c)
  case Nil
  then show ?case by (simp add: readLoop_def)
next
  case (Cons ch chs)
  obtain t1 c1 where pc: "processChunk parse toStr (t, c) ch = (t1, c1)"
    by (cases "processChunk parse toStr (t, c) ch")
  have "readLoop parse toStr (t1, c1) chs = (t', c')"
    using Cons.prems pc by (simp add: readLoop_def)
  then show ?case
    using Cons.IH [of t1 c1] pc by (simp add: step_def)
qed

lemma handleSubmit_run:
  "foldl (step parse toStr) \<lparr> ui = c, rendered = c, flights = [] \<rparr>
     (script now0 now1 now2 fetched) =
     \<lparr> ui = handleSubmit parse toStr now0 now1 now2 fetched c, rendered = c, flights = [] \<rparr>"
proof (cases "submitGuard c")
  case False
  have "step parse toStr \<lparr> ui = c, rendered = c, flights = [] \<rparr> (Submit now0) =
      \<lparr> ui = c, rendered = c, flights = [] \<rparr>"
    using False by (simp add: step_def)
  moreover have "foldl (step parse toStr) \<lparr> ui = c, rendered = c, flights = [] \<rparr> es =
      \<lparr> ui = c, rendered = c, flights = [] \<rparr>"
    if "es = tl (script now0 now1 now2 fetched)" for es
    using that
    by (intro foldl_step_idle)
      (auto simp add: script_def split: fetch_result.splits option.splits read_end.splits if_splits)
  ultimately show ?thesis
    using False by (simp add: script_def handleSubmit_def)
next
  case True
  let ?c1 = "beginSubmit now0 c"
  have s1: "step parse toStr \<lparr> ui = c, rendered = c, flights = [] \<rparr> (Submit now0) =
      \<lparr> ui = ?c1, rendered = c, flights = [Fetching] \<rparr>"
    using True by (simp add: step_def submitFrom_same)
  have fail: "step parse toStr \<lparr> ui = ?c1, rendered = c, flights = [Fetching] \<rparr> (FetchFails 0 now2) =
      \<lparr> ui = finallyBlock (catchError now2 ?c1), rendered = c, flights = [] \<rparr>"
    by (simp add: step_def landed_def)
  show ?thesis
  proof (cases fetched)
    case FetchRejects
    then show ?thesis
      using True by (simp add: script_def handleSubmit_def s1 fail Let_def)
  next
    case (Fetched ok reader)
    show ?thesis
    proof (cases ok)
      case False
      then show ?thesis
        using True Fetched by (simp add: script_def handleSubmit_def s1 fail Let_def)
    next
      case ok: True
      show ?thesis
      proof (cases reader)
        case None
        then show ?thesis
          using True Fetched ok by (simp add: script_def handleSubmit_def s1 fail Let_def)
      next
        case (Some p)
        obtain chunks ending where r: "reader = Some (chunks, ending)"
          using Some by (cases p) simp
        obtain t2 c2 where rl: "readLoop parse toStr (newTurn now1, ?c1) chunks = (t2, c2)"
          by (cases "readLoop parse toStr (newTurn now1, ?c1) chunks")
        have s2: "step parse toStr \<lparr> ui = ?c1, rendered = c, flights = [Fetching] \<rparr> (FetchOk 0 now1) =
            \<lparr> ui = ?c1, rendered = c, flights = [Reading (newTurn now1)] \<rparr>"
          by (simp add: step_def)
        have s3: "foldl (step parse toStr)
            \<lparr> ui = ?c1, rendered = c, flights = [Reading (newTurn now1)] \<rparr>
            (map (Read 0) chunks) = \<lparr> ui = c2, rendered = c, flights = [Reading t2] \<rparr>"
          using foldl_step_reads [OF rl] .
        have s4: "step parse toStr \<lparr> ui = c2, rendered = c, flights = [Reading t2] \<rparr> (ReadDone 0) =
            \<lparr> ui = finallyBlock (streamEnd t2 c2), rendered = c, flights = [] \<rparr>"
          "step parse toStr \<lparr> ui = c2, rendered = c, flights = [Reading t2] \<rparr> (ReadFails 0 now2) =
            \<lparr> ui = finallyBlock (catchError now2 c2), rendered = c, flights = [] \<rparr>"
          by (simp_all add: step_def landed_def)
        show ?thesis
          using True Fetched ok r
          by (cases ending) (simp_all add: script_def handleSubmit_def Let_def s1 s2 s3 s4 rl)
      qed
    qed
  qed
qed

subsection \<open>One request at a time\<close>










subsection \<open>Error placeholders never reach the provider\<close>

text \<open>
  Claim C10. The message the client appends to the history in its \<open>catch\<close> block begins
  with \<open>Sorry, I encountered an error\<close>, the prefix the relay filters on. So wherever
  such a placeholder stands in the history, the relay formats the posted list (the
  history and the new user message), and answers the request, exactly as if the
  placeholder were not there.
\<close>

theorem error_placeholder_dropped:
  "startsWith (content (errorMessage now)) (js ''Sorry, I encountered an error'') \<and>
   messages (catchError now c) = messages c @ [errorMessage now] \<and>
   formattedMessages (earlier @ errorMessage now # later) = formattedMessages (earlier @ later) \<and>
   formattedMessages (requestMessages now' (c\<lparr>messages := earlier @ errorMessage now # later\<rparr>)) =
     formattedMessages (requestMessages now' (c\<lparr>messages := earlier @ later\<rparr>)) \<and>
   POST stringify anthropic apiKey (Messages (earlier @ errorMessage now # later)) =
     POST stringify anthropic apiKey (Messages (earlier @ later))"
proof -
  have sw: "startsWith (content (errorMessage now)) (js ''Sorry, I encountered an error'')"
    by (simp add: errorMessage_def startsWith_def js_def)
  then have nk: "\<not> keep (errorMessage now)"
    by (simp add: keep_def sentinel_def)
  have f: "formattedMessages (earlier @ errorMessage now # later) = formattedMessages (earlier @ later)"
    using nk by (simp add: formattedMessages_def)
  have r: "formattedMessages (requestMessages now' (c\<lparr>messages := earlier @ errorMessage now # later\<rparr>)) =
     formattedMessages (requestMessages now' (c\<lparr>messages := earlier @ later\<rparr>))"
    using nk by (simp add: formattedMessages_def requestMessages_def userMessage_def)
  show ?thesis
    using sw r by (simp add: f POST_def POST_try_def catchError_def)
qed

end
